theory Spec2Isabelle
  imports Main
begin

section \<open>Filter domain entity (domain/entities/Filter)\<close>

text \<open>
  Filter identifiers are JavaScript strings. The code only compares them for equality
  (\<open>===\<close>, \<open>!==\<close>, \<open>includes\<close>) and tests them for truthiness (\<open>||\<close>), where the empty
  string is the only falsy string; \<open>string\<close> carries both observations.
\<close>

record FilterOption =
  id_field :: string
  label :: string
  icon :: "string option"

text \<open>
  \<open>defaultFilterId?: string\<close> and \<open>singleSelect?: boolean\<close> are optional fields:
  \<open>None\<close> is \<open>undefined\<close>.
\<close>

record FilterConfig =
  options :: "FilterOption list"
  defaultFilterId :: "string option"
  singleSelect :: "bool option"

text \<open>
  \<open>a || b\<close> where \<open>a\<close> is a string or \<open>undefined\<close>: \<open>b\<close> when \<open>a\<close> is \<open>undefined\<close>
  or the empty string, otherwise \<open>a\<close>.
\<close>

definition js_or :: "string option \<Rightarrow> string \<Rightarrow> string" where
  "js_or a b = (case a of None \<Rightarrow> b | Some s \<Rightarrow> if s = [] then b else s)"

text \<open>\<open>xs[0]\<close>: \<open>undefined\<close> on the empty array.\<close>

definition index0 :: "'a list \<Rightarrow> 'a option" where
  "index0 xs = (case xs of [] \<Rightarrow> None | x # _ \<Rightarrow> Some x)"

text \<open>The default parameter \<open>defaultFilterId: string = "all"\<close> of the static methods.\<close>

definition defaultParam :: "string option \<Rightarrow> string" where
  "defaultParam a = (case a of None \<Rightarrow> ''all'' | Some s \<Rightarrow> s)"

definition isActiveFilter :: "string \<Rightarrow> string option \<Rightarrow> bool" where
  "isActiveFilter filterId dflt = (filterId \<noteq> defaultParam dflt)"

definition getActiveFilter :: "string list \<Rightarrow> string option \<Rightarrow> string" where
  "getActiveFilter selectedIds dflt = js_or (index0 selectedIds) (defaultParam dflt)"

definition hasActiveFilter :: "string list \<Rightarrow> string option \<Rightarrow> bool" where
  "hasActiveFilter selectedIds dflt =
     (let activeFilter = getActiveFilter selectedIds (Some (defaultParam dflt))
      in isActiveFilter activeFilter (Some (defaultParam dflt)))"

section \<open>The hook useListFilters\<close>

text \<open>
  The hook's state is \<open>selectedIds\<close>. A handler reads the \<open>selectedIds\<close> of the render
  it was created in and hands the next value to \<open>setSelectedIds\<close>; it is modelled as the
  function from the current value to the next one.
\<close>

text \<open>\<open>const defaultFilterId = config.defaultFilterId || "all"\<close>\<close>

definition hook_defaultFilterId :: "FilterConfig \<Rightarrow> string" where
  "hook_defaultFilterId config = js_or (defaultFilterId config) ''all''"

text \<open>\<open>useState<string[]>([defaultFilterId])\<close>\<close>

definition initialSelectedIds :: "FilterConfig \<Rightarrow> string list" where
  "initialSelectedIds config = [hook_defaultFilterId config]"

definition hook_activeFilter :: "FilterConfig \<Rightarrow> string list \<Rightarrow> string" where
  "hook_activeFilter config selectedIds =
     getActiveFilter selectedIds (Some (hook_defaultFilterId config))"

definition hook_hasActiveFilter :: "FilterConfig \<Rightarrow> string list \<Rightarrow> bool" where
  "hook_hasActiveFilter config selectedIds =
     hasActiveFilter selectedIds (Some (hook_defaultFilterId config))"

definition handleFilterPress :: "FilterConfig \<Rightarrow> string list \<Rightarrow> string \<Rightarrow> string list" where
  "handleFilterPress config selectedIds filterId =
     (if singleSelect config \<noteq> Some False then
        (if filterId \<in> set selectedIds \<and> filterId \<noteq> hook_defaultFilterId config
         then [hook_defaultFilterId config]
         else [filterId])
      else
        (if filterId = hook_defaultFilterId config then [hook_defaultFilterId config]
         else if filterId \<in> set selectedIds then
           (let newIds = filter (\<lambda>i. i \<noteq> filterId) selectedIds
            in if length newIds > 0 then newIds else [hook_defaultFilterId config])
         else
           (let newIds = filter (\<lambda>i. i \<noteq> hook_defaultFilterId config) selectedIds
            in newIds @ [filterId])))"

definition handleClearFilters :: "FilterConfig \<Rightarrow> string list \<Rightarrow> string list" where
  "handleClearFilters config selectedIds = [hook_defaultFilterId config]"

subsection \<open>applyFilters, with the calls it makes to the predicate\<close>

text \<open>
  \<open>Array.prototype.some\<close> calls the callback on the elements in order and stops at the
  first one it holds for. The second component lists the elements the callback was
  called on.
\<close>

fun some_calls :: "('a \<Rightarrow> bool) \<Rightarrow> 'a list \<Rightarrow> bool \<times> 'a list" where
  "some_calls cb [] = (False, [])"
| "some_calls cb (x # xs) =
     (if cb x then (True, [x])
      else (case some_calls cb xs of (b, called) \<Rightarrow> (b, x # called)))"

text \<open>
  \<open>Array.prototype.filter\<close> calls the callback on every element in order and keeps the
  elements it holds for. The callback reports the calls it made; the second component
  collects them.
\<close>

fun filter_calls :: "('a \<Rightarrow> bool \<times> 'c list) \<Rightarrow> 'a list \<Rightarrow> 'a list \<times> 'c list" where
  "filter_calls cb [] = ([], [])"
| "filter_calls cb (x # xs) =
     (case cb x of (b, called) \<Rightarrow>
        (case filter_calls cb xs of (kept, called') \<Rightarrow>
           (if b then x # kept else kept, called @ called')))"

text \<open>
  The result of \<open>applyFilters\<close>, paired with the sequence of arguments \<open>(item, filterId)\<close>
  on which \<open>filterFn\<close> was called.
\<close>

definition applyFilters ::
  "FilterConfig \<Rightarrow> string list \<Rightarrow> 't list \<Rightarrow> ('t \<Rightarrow> string \<Rightarrow> bool) \<Rightarrow> 't list \<times> ('t \<times> string) list" where
  "applyFilters config selectedIds items filterFn =
     (if \<not> hook_hasActiveFilter config selectedIds then (items, [])
      else filter_calls
             (\<lambda>item. case some_calls (\<lambda>filterId. filterFn item filterId) selectedIds of
                        (b, called) \<Rightarrow> (b, map (Pair item) called))
             items)"

subsection \<open>Sequences of user events\<close>

datatype event = Press string | Clear

fun step :: "FilterConfig \<Rightarrow> string list \<Rightarrow> event \<Rightarrow> string list" where
  "step config selectedIds (Press filterId) = handleFilterPress config selectedIds filterId"
| "step config selectedIds Clear = handleClearFilters config selectedIds"

text \<open>The selection after a sequence of events, starting from the state at mount.\<close>

definition run :: "FilterConfig \<Rightarrow> event list \<Rightarrow> string list" where
  "run config evs = foldl (step config) (initialSelectedIds config) evs"

subsection \<open>The derived query as the specification words it\<close>

text \<open>
  The first element of \<open>selectedIds\<close>, or the default identifier when the list is empty.
\<close>

definition activeFilter_spec :: "string list \<Rightarrow> string \<Rightarrow> string" where
  "activeFilter_spec selectedIds dflt = (case selectedIds of [] \<Rightarrow> dflt | x # _ \<Rightarrow> x)"

section \<open>Auxiliary facts\<close>

lemma hook_defaultFilterId_nonempty: "hook_defaultFilterId config \<noteq> []"
  by (simp add: hook_defaultFilterId_def js_or_def split: option.split)

lemma fst_some_calls: "fst (some_calls cb xs) = (\<exists>x \<in> set xs. cb x)"
  by (induction xs) (auto split: prod.split)

lemma fst_filter_calls: "fst (filter_calls cb xs) = filter (\<lambda>x. fst (cb x)) xs"
  by (induction xs) (auto split: prod.split)

lemma handleFilterPress_nonempty: "handleFilterPress config selectedIds filterId \<noteq> []"
  by (simp add: handleFilterPress_def Let_def)

lemma step_nonempty: "step config selectedIds ev \<noteq> []"
  by (cases ev) (simp_all add: handleFilterPress_nonempty handleClearFilters_def)

lemma getActiveFilter_default_singleton: "getActiveFilter [d] (Some d) = d"
  by (simp add: getActiveFilter_def index0_def js_or_def defaultParam_def)

lemma hasActiveFilter_default_singleton: "\<not> hasActiveFilter [d] (Some d)"
  by (simp add: hasActiveFilter_def isActiveFilter_def defaultParam_def
      getActiveFilter_default_singleton)

lemma handleFilterPress_multi_shape:
  assumes "singleSelect config = Some False"
    and "selectedIds = [hook_defaultFilterId config]
         \<or> (selectedIds \<noteq> [] \<and> hook_defaultFilterId config \<notin> set selectedIds)"
  shows "handleFilterPress config selectedIds filterId = [hook_defaultFilterId config]
         \<or> (handleFilterPress config selectedIds filterId \<noteq> []
            \<and> hook_defaultFilterId config \<notin> set (handleFilterPress config selectedIds filterId))"
  using assms by (auto simp: handleFilterPress_def Let_def)

lemma run_snoc: "run config (evs @ [ev]) = step config (run config evs) ev"
  by (simp add: run_def)

lemma run_multi_shape:
  assumes "singleSelect config = Some False"
  shows "run config evs = [hook_defaultFilterId config]
         \<or> (run config evs \<noteq> [] \<and> hook_defaultFilterId config \<notin> set (run config evs))"
proof (induction evs rule: rev_induct)
  case Nil
  show ?case by (simp add: run_def initialSelectedIds_def)
next
  case (snoc ev evs)
  show ?case
  proof (cases ev)
    case (Press filterId)
    then show ?thesis
      using handleFilterPress_multi_shape [OF assms snoc.IH, of filterId]
      by (simp add: run_snoc)
  next
    case Clear
    then show ?thesis by (simp add: run_snoc handleClearFilters_def)
  qed
qed

lemma filter_neq_absent: "x \<notin> set xs \<Longrightarrow> filter (\<lambda>i. i \<noteq> x) xs = xs"
  by (induction xs) auto

lemma press_twice_multi:
  assumes "singleSelect config = Some False"
    and "x \<noteq> hook_defaultFilterId config"
    and "x \<notin> set selectedIds"
  shows "handleFilterPress config (handleFilterPress config selectedIds x) x =
           (if filter (\<lambda>i. i \<noteq> hook_defaultFilterId config) selectedIds = []
            then [hook_defaultFilterId config]
            else filter (\<lambda>i. i \<noteq> hook_defaultFilterId config) selectedIds)"
proof -
  let ?d = "hook_defaultFilterId config"
  let ?kept = "filter (\<lambda>i. i \<noteq> ?d) selectedIds"
  have first: "handleFilterPress config selectedIds x = ?kept @ [x]"
    using assms by (simp add: handleFilterPress_def Let_def)
  have notin: "x \<notin> set ?kept" using assms(3) by simp
  have "filter (\<lambda>i. i \<noteq> x) (?kept @ [x]) = filter (\<lambda>i. i \<noteq> x) ?kept"
    by simp
  also have "\<dots> = ?kept"
    using notin by (rule filter_neq_absent)
  finally have removed: "filter (\<lambda>i. i \<noteq> x) (?kept @ [x]) = ?kept" .
  have "handleFilterPress config (?kept @ [x]) x = (if ?kept = [] then [?d] else ?kept)"
    using assms(1,2) removed by (simp add: handleFilterPress_def Let_def)
  with first show ?thesis by simp
qed

section \<open>Single-select mode\<close>

text \<open>
  C1. In single-select mode (\<open>config.singleSelect !== false\<close>), for every selection and
  every \<open>filterId\<close>: when \<open>filterId\<close> is in the current selection and is not the default
  identifier, the press yields exactly the default identifier alone; otherwise it yields
  exactly \<open>filterId\<close> alone.
\<close>

theorem C1_single_select_press:
  assumes "singleSelect config \<noteq> Some False"
  shows "handleFilterPress config selectedIds filterId =
           (if filterId \<in> set selectedIds \<and> filterId \<noteq> hook_defaultFilterId config
            then [hook_defaultFilterId config] else [filterId])"
  using assms by (simp add: handleFilterPress_def)

theorem C1_single_select_press_witness:
  "handleFilterPress \<lparr>options = [], defaultFilterId = Some ''all'', singleSelect = None\<rparr>
     [''active''] ''active'' = [''all'']
   \<and> handleFilterPress \<lparr>options = [], defaultFilterId = Some ''all'', singleSelect = None\<rparr>
     [''active''] ''completed'' = [''completed'']"
  using C1_single_select_press
          [of "\<lparr>options = [], defaultFilterId = Some ''all'', singleSelect = None\<rparr>"
              "[''active'']" "''active''"]
        C1_single_select_press
          [of "\<lparr>options = [], defaultFilterId = Some ''all'', singleSelect = None\<rparr>"
              "[''active'']" "''completed''"]
  by (simp add: hook_defaultFilterId_def js_or_def)

text \<open>
  C9. In single-select mode, for every prior selection (also one holding several
  identifiers) and every \<open>filterId\<close>, the press yields a list of length exactly 1, which
  is the default identifier alone or \<open>filterId\<close> alone; when the prior list contains a
  non-default \<open>filterId\<close>, even among other identifiers, the result is the default
  identifier alone.
\<close>

theorem C9_single_select_singleton:
  assumes "singleSelect config \<noteq> Some False"
  shows "length (handleFilterPress config selectedIds filterId) = 1
         \<and> (handleFilterPress config selectedIds filterId = [hook_defaultFilterId config]
            \<or> handleFilterPress config selectedIds filterId = [filterId])
         \<and> (filterId \<in> set selectedIds \<and> filterId \<noteq> hook_defaultFilterId config
            \<longrightarrow> handleFilterPress config selectedIds filterId = [hook_defaultFilterId config])"
  using assms by (simp add: handleFilterPress_def)

theorem C9_single_select_singleton_witness:
  "length (handleFilterPress
             \<lparr>options = [], defaultFilterId = None, singleSelect = Some True\<rparr>
             [''active'', ''completed''] ''completed'') = 1
   \<and> handleFilterPress
         \<lparr>options = [], defaultFilterId = None, singleSelect = Some True\<rparr>
         [''active'', ''completed''] ''completed'' = [''all'']"
  using C9_single_select_singleton
          [of "\<lparr>options = [], defaultFilterId = None, singleSelect = Some True\<rparr>"
              "[''active'', ''completed'']" "''completed''"]
  by (simp add: hook_defaultFilterId_def js_or_def)

section \<open>Multi-select mode\<close>

text \<open>
  C2. In multi-select mode (\<open>config.singleSelect === false\<close>), for every selection and
  every non-default \<open>filterId\<close>: when \<open>filterId\<close> is in the selection, the press removes
  it and keeps the remaining identifiers in their order, and yields the default
  identifier alone when nothing remains; when \<open>filterId\<close> is not in the selection, the
  press yields the non-default identifiers of the selection in their order, followed by
  \<open>filterId\<close>.
\<close>

theorem C2_multi_select_press:
  assumes "singleSelect config = Some False"
    and "filterId \<noteq> hook_defaultFilterId config"
  shows "handleFilterPress config selectedIds filterId =
           (if filterId \<in> set selectedIds then
              (if filter (\<lambda>i. i \<noteq> filterId) selectedIds = []
               then [hook_defaultFilterId config]
               else filter (\<lambda>i. i \<noteq> filterId) selectedIds)
            else filter (\<lambda>i. i \<noteq> hook_defaultFilterId config) selectedIds @ [filterId])"
  using assms by (simp add: handleFilterPress_def Let_def)

theorem C2_multi_select_press_witness:
  "handleFilterPress \<lparr>options = [], defaultFilterId = Some ''all'', singleSelect = Some False\<rparr>
     [''all''] ''active'' = [''active'']
   \<and> handleFilterPress \<lparr>options = [], defaultFilterId = Some ''all'', singleSelect = Some False\<rparr>
     [''active''] ''completed'' = [''active'', ''completed'']
   \<and> handleFilterPress \<lparr>options = [], defaultFilterId = Some ''all'', singleSelect = Some False\<rparr>
     [''active'', ''completed''] ''active'' = [''completed'']
   \<and> handleFilterPress \<lparr>options = [], defaultFilterId = Some ''all'', singleSelect = Some False\<rparr>
     [''completed''] ''completed'' = [''all'']"
  using C2_multi_select_press
          [of "\<lparr>options = [], defaultFilterId = Some ''all'', singleSelect = Some False\<rparr>"
              "''active''" "[''all'']"]
        C2_multi_select_press
          [of "\<lparr>options = [], defaultFilterId = Some ''all'', singleSelect = Some False\<rparr>"
              "''completed''" "[''active'']"]
        C2_multi_select_press
          [of "\<lparr>options = [], defaultFilterId = Some ''all'', singleSelect = Some False\<rparr>"
              "''active''" "[''active'', ''completed'']"]
        C2_multi_select_press
          [of "\<lparr>options = [], defaultFilterId = Some ''all'', singleSelect = Some False\<rparr>"
              "''completed''" "[''completed'']"]
  by (simp add: hook_defaultFilterId_def js_or_def)

section \<open>Both modes\<close>

text \<open>
  C4. For every selection, in single-select and in multi-select mode, pressing the
  default identifier yields exactly the default identifier alone.
\<close>

theorem C4_press_default_resets:
  "handleFilterPress config selectedIds (hook_defaultFilterId config)
     = [hook_defaultFilterId config]"
  by (simp add: handleFilterPress_def)

text \<open>
  C6. For every selection, \<open>clear()\<close> yields exactly the default identifier alone, so
  clearing twice yields the same state as clearing once.
\<close>

theorem C6_clear_resets_idempotent:
  "handleClearFilters config selectedIds = [hook_defaultFilterId config]
   \<and> handleClearFilters config (handleClearFilters config selectedIds)
       = handleClearFilters config selectedIds"
  by (simp add: handleClearFilters_def)

text \<open>
  C3. Every state reached from the state at mount by a sequence of presses and clears,
  in either mode, is a non-empty list.
\<close>

theorem C3_reachable_nonempty: "run config evs \<noteq> []"
proof (induction evs rule: rev_induct)
  case Nil
  show ?case by (simp add: run_def initialSelectedIds_def)
next
  case (snoc ev evs)
  have "run config (evs @ [ev]) = step config (run config evs) ev"
    by (simp add: run_def)
  then show ?case by (simp add: step_nonempty)
qed

text \<open>
  C8. A press has a result for every string, also one that is no identifier of the
  configured options, and the result does not depend on \<open>config.options\<close>: two
  configurations that agree on \<open>defaultFilterId\<close> and \<open>singleSelect\<close> give the same
  selection for the same press in the same state.
\<close>

theorem C8_press_independent_of_options:
  assumes "defaultFilterId config1 = defaultFilterId config2"
    and "singleSelect config1 = singleSelect config2"
  shows "handleFilterPress config1 selectedIds filterId
           = handleFilterPress config2 selectedIds filterId"
proof -
  have "hook_defaultFilterId config1 = hook_defaultFilterId config2"
    using assms(1) by (simp add: hook_defaultFilterId_def)
  with assms(2) show ?thesis
    unfolding handleFilterPress_def Let_def by simp
qed

theorem C8_press_independent_of_options_witness:
  "handleFilterPress
     \<lparr>options = [\<lparr>id_field = ''all'', label = ''All Items'', icon = None\<rparr>],
      defaultFilterId = Some ''all'', singleSelect = Some False\<rparr>
     [''active''] ''unknown''
   = handleFilterPress
     \<lparr>options = [], defaultFilterId = Some ''all'', singleSelect = Some False\<rparr>
     [''active''] ''unknown''
   \<and> handleFilterPress
     \<lparr>options = [], defaultFilterId = Some ''all'', singleSelect = Some False\<rparr>
     [''active''] ''unknown'' = [''active'', ''unknown'']"
  using C8_press_independent_of_options
          [of "\<lparr>options = [\<lparr>id_field = ''all'', label = ''All Items'', icon = None\<rparr>],
                defaultFilterId = Some ''all'', singleSelect = Some False\<rparr>"
              "\<lparr>options = [], defaultFilterId = Some ''all'', singleSelect = Some False\<rparr>"
              "[''active'']" "''unknown''"]
  by (simp add: handleFilterPress_def hook_defaultFilterId_def js_or_def)

text \<open>
  C10. In multi-select mode, for every state \<open>s\<close> reached from the state at mount and
  every identifier \<open>x\<close> that is not the default and not in \<open>s\<close>, pressing \<open>x\<close> twice
  restores exactly \<open>s\<close> (also when \<open>s\<close> is the default identifier alone).
\<close>

theorem C10_multi_press_twice_restores:
  assumes "singleSelect config = Some False"
    and "x \<noteq> hook_defaultFilterId config"
    and "x \<notin> set (run config evs)"
  shows "handleFilterPress config (handleFilterPress config (run config evs) x) x
           = run config evs"
proof -
  let ?d = "hook_defaultFilterId config"
  let ?s = "run config evs"
  have twice: "handleFilterPress config (handleFilterPress config ?s x) x =
                 (if filter (\<lambda>i. i \<noteq> ?d) ?s = [] then [?d] else filter (\<lambda>i. i \<noteq> ?d) ?s)"
    using assms by (rule press_twice_multi)
  from run_multi_shape [OF assms(1), of evs]
  consider (dflt) "?s = [?d]" | (other) "?s \<noteq> []" "?d \<notin> set ?s"
    by blast
  then show ?thesis
  proof cases
    case dflt
    then have "filter (\<lambda>i. i \<noteq> ?d) ?s = []" by simp
    with twice dflt show ?thesis by simp
  next
    case other
    then have "filter (\<lambda>i. i \<noteq> ?d) ?s = ?s" by (simp add: filter_neq_absent)
    with twice other show ?thesis by simp
  qed
qed

theorem C10_multi_press_twice_restores_witness:
  "run \<lparr>options = [], defaultFilterId = Some ''all'', singleSelect = Some False\<rparr>
       [Press ''active''] = [''active'']
   \<and> handleFilterPress \<lparr>options = [], defaultFilterId = Some ''all'', singleSelect = Some False\<rparr>
       (handleFilterPress \<lparr>options = [], defaultFilterId = Some ''all'', singleSelect = Some False\<rparr>
          [''active''] ''completed'') ''completed'' = [''active'']
   \<and> run \<lparr>options = [], defaultFilterId = Some ''all'', singleSelect = Some False\<rparr> []
       = [''all'']
   \<and> handleFilterPress \<lparr>options = [], defaultFilterId = Some ''all'', singleSelect = Some False\<rparr>
       (handleFilterPress \<lparr>options = [], defaultFilterId = Some ''all'', singleSelect = Some False\<rparr>
          [''all''] ''active'') ''active'' = [''all'']"
proof -
  let ?c = "\<lparr>options = [], defaultFilterId = Some ''all'', singleSelect = Some False\<rparr>"
  have d: "hook_defaultFilterId ?c = ''all''"
    by (simp add: hook_defaultFilterId_def js_or_def)
  have r: "run ?c [Press ''active''] = [''active'']"
    by (simp add: run_def initialSelectedIds_def handleFilterPress_def d)
  have r0: "run ?c [] = [''all'']"
    by (simp add: run_def initialSelectedIds_def d)
  have "handleFilterPress ?c (handleFilterPress ?c (run ?c [Press ''active'']) ''completed'')
          ''completed'' = run ?c [Press ''active'']"
    by (rule C10_multi_press_twice_restores) (simp_all add: d r)
  moreover have "handleFilterPress ?c (handleFilterPress ?c (run ?c []) ''active'') ''active''
          = run ?c []"
    by (rule C10_multi_press_twice_restores) (simp_all add: d r0)
  ultimately show ?thesis using r r0 by simp
qed

section \<open>Derived queries and applyFilters\<close>

text \<open>
  C5. For every item list and every predicate: when no filter is active
  (\<open>hasActiveFilter\<close> is false, as it is when \<open>selectedIds\<close> is the default identifier
  alone), \<open>applyFilters\<close> returns the items unchanged and calls the predicate on
  nothing; otherwise it returns the items, in their order, for which the predicate
  holds with at least one identifier of \<open>selectedIds\<close>.
\<close>

theorem C5_applyFilters:
  "(\<not> hook_hasActiveFilter config selectedIds \<longrightarrow>
      applyFilters config selectedIds items filterFn = (items, []))
   \<and> applyFilters config [hook_defaultFilterId config] items filterFn = (items, [])
   \<and> (hook_hasActiveFilter config selectedIds \<longrightarrow>
      fst (applyFilters config selectedIds items filterFn)
        = filter (\<lambda>item. \<exists>filterId \<in> set selectedIds. filterFn item filterId) items)"
proof -
  have "\<And>item. fst (case some_calls (\<lambda>filterId. filterFn item filterId) selectedIds of
                      (b, called) \<Rightarrow> (b, map (Pair item) called))
               = (\<exists>filterId \<in> set selectedIds. filterFn item filterId)"
    using fst_some_calls [of "\<lambda>filterId. filterFn _ filterId" selectedIds]
    by (simp add: split_beta)
  then have active: "hook_hasActiveFilter config selectedIds \<Longrightarrow>
      fst (applyFilters config selectedIds items filterFn)
        = filter (\<lambda>item. \<exists>filterId \<in> set selectedIds. filterFn item filterId) items"
    by (simp add: applyFilters_def fst_filter_calls)
  have "\<not> hook_hasActiveFilter config [hook_defaultFilterId config]"
    by (simp add: hook_hasActiveFilter_def hasActiveFilter_default_singleton)
  then have dflt: "applyFilters config [hook_defaultFilterId config] items filterFn = (items, [])"
    by (simp add: applyFilters_def)
  show ?thesis using active dflt by (simp add: applyFilters_def)
qed

theorem C5_applyFilters_witness:
  "applyFilters \<lparr>options = [], defaultFilterId = Some ''all'', singleSelect = Some False\<rparr>
     [''all''] [''active'', ''completed'', ''archived''] (\<lambda>item filterId. item = filterId)
     = ([''active'', ''completed'', ''archived''], [])
   \<and> fst (applyFilters \<lparr>options = [], defaultFilterId = Some ''all'', singleSelect = Some False\<rparr>
     [''active'', ''completed''] [''active'', ''completed'', ''archived'']
     (\<lambda>item filterId. item = filterId))
     = [''active'', ''completed'']"
proof -
  let ?c = "\<lparr>options = [], defaultFilterId = Some ''all'', singleSelect = Some False\<rparr>"
  have d: "hook_defaultFilterId ?c = ''all''"
    by (simp add: hook_defaultFilterId_def js_or_def)
  have off: "\<not> hook_hasActiveFilter ?c [''all'']"
    by (simp add: hook_hasActiveFilter_def hasActiveFilter_def isActiveFilter_def
        getActiveFilter_def index0_def js_or_def defaultParam_def d)
  have on: "hook_hasActiveFilter ?c [''active'', ''completed'']"
    by (simp add: hook_hasActiveFilter_def hasActiveFilter_def isActiveFilter_def
        getActiveFilter_def index0_def js_or_def defaultParam_def d)
  show ?thesis
    using C5_applyFilters [of ?c "[''all'']" "[''active'', ''completed'', ''archived'']"
                              "\<lambda>item filterId. item = filterId"]
          C5_applyFilters [of ?c "[''active'', ''completed'']"
                              "[''active'', ''completed'', ''archived'']"
                              "\<lambda>item filterId. item = filterId"]
          off on
    by simp
qed

text \<open>
  C7 as stated (the active filter is the first element of \<open>selectedIds\<close>, and is the
  default identifier exactly when the list is empty) fails when the first element is
  the empty string: \<open>selectedIds[0] || defaultFilterId\<close> then yields the default
  identifier, for a non-empty list.
\<close>

theorem C7_activeFilter_counterexample:
  "getActiveFilter [''''] (Some ''all'') = ''all''
   \<and> activeFilter_spec [''''] ''all'' = ''''
   \<and> getActiveFilter [''''] (Some ''all'') \<noteq> activeFilter_spec [''''] ''all''
   \<and> [''''] \<noteq> ([] :: string list)"
  by (simp add: getActiveFilter_def activeFilter_spec_def index0_def js_or_def defaultParam_def)

text \<open>
  C7, amended. For every list \<open>selectedIds\<close> and every \<open>defaultFilterId\<close>: the active
  filter is the first element of \<open>selectedIds\<close> when the list is non-empty and that
  element is not the empty string, and the default identifier otherwise;
  \<open>hasActiveFilter\<close> is true iff the active filter differs from the default identifier.
\<close>

theorem C7_activeFilter_amended:
  "getActiveFilter selectedIds dflt =
     (case selectedIds of
        [] \<Rightarrow> defaultParam dflt
      | x # _ \<Rightarrow> if x = '''' then defaultParam dflt else x)
   \<and> hasActiveFilter selectedIds dflt
       = (getActiveFilter selectedIds dflt \<noteq> defaultParam dflt)"
  by (simp add: getActiveFilter_def hasActiveFilter_def isActiveFilter_def index0_def
      js_or_def defaultParam_def Let_def split: list.split option.split)

end
